theory Spec2Isabelle
  imports Main "HOL-Library.Sublist" "HOL-Library.Multiset"
begin

section \<open>Data model\<close>

text \<open>
  The plugin of \<^verbatim>\<open>plugin.go\<close> relays messages read from a websocket to a list of
  webhooks. The embedding follows the source function by function. Strings are Go
  strings, that is byte sequences (\<open>string\<close> = \<open>char list\<close>).

  \<^verbatim>\<open>WebHook\<close> (lines 89-94). \<^verbatim>\<open>Header\<close> is a Go map, whose zero value \<^verbatim>\<open>nil\<close> differs
  from a map with no entries: \<open>None\<close> is \<^verbatim>\<open>nil\<close>, \<open>Some m\<close> a non-nil map (the YAML
  document \<^verbatim>\<open>header: {}\<close> decodes to \<open>Some Map.empty\<close>, a missing \<^verbatim>\<open>header\<close> key
  to \<open>None\<close>).
\<close>

record WebHook =
  Url :: string
  Method :: string
  Body :: string
  Header :: "(string \<rightharpoonup> string) option"

text \<open>
  \<^verbatim>\<open>Config.WebHooks\<close> is a slice of pointers \<^verbatim>\<open>[]*WebHook\<close>, and \<^verbatim>\<open>SendMessage\<close> writes
  through these pointers. A pointer is an address; the records live in a store. The
  nil pointer is an address at which the store holds nothing: dereferencing it panics.
\<close>

type_synonym ref = nat

type_synonym store = "ref \<rightharpoonup> WebHook"

text \<open>\<^verbatim>\<open>Config\<close> (lines 97-101).\<close>

record Config =
  ClientToken :: string
  HostServer :: string
  WebHooks :: "ref list"

text \<open>
  \<^verbatim>\<open>MultiNotifierPlugin\<close> (lines 30-35). Only \<^verbatim>\<open>config\<close> is read by the functions below;
  it is a pointer \<^verbatim>\<open>*Config\<close>, \<open>None\<close> while it is nil (before
  \<^verbatim>\<open>ValidateAndSetConfig\<close>). The handlers and \<^verbatim>\<open>basePath\<close> are never read.
\<close>

record MultiNotifierPlugin =
  config :: "Config option"

text \<open>
  Modelled from the spec: the type \<^verbatim>\<open>plugin.Message\<close> is declared in the package
  \<^verbatim>\<open>github.com/gotify/plugin-api\<close>, which is not among the sources. The spec's Event is
  \<open>{title: string, message: string}\<close>; these are the two fields \<^verbatim>\<open>SendMessage\<close> reads
  (\<^verbatim>\<open>msg.Title\<close>, \<^verbatim>\<open>msg.Message\<close>).
\<close>

record Message =
  Title :: string
  Message :: string

text \<open>
  Errors. \<^verbatim>\<open>ErrorString\<close> is \<^verbatim>\<open>errors.New\<close>; the other four are the errors returned by
  \<^verbatim>\<open>http.NewRequest\<close>, \<^verbatim>\<open>http.DefaultClient.Do\<close>, \<^verbatim>\<open>websocket.DefaultDialer.Dial\<close> and
  \<^verbatim>\<open>conn.WriteMessage\<close>, whose contents the plugin never inspects. A Go function of result type \<^verbatim>\<open>error\<close>
  either returns (\<open>None\<close> is the nil error) or panics.
\<close>

datatype error = ErrorString string | NewRequestError | DoError | DialError | WriteError

datatype outcome = Returned "error option" | Panicked

section \<open>The world outside the plugin\<close>

text \<open>
  The HTTP request handed to \<^verbatim>\<open>http.DefaultClient.Do\<close>: the method, URL and body given to
  \<^verbatim>\<open>http.NewRequest\<close> (line 159) and the header fields added by the loop of lines 164-166.
  An \<^verbatim>\<open>http.Header\<close> maps a field name to the list of its values; here it is the multiset
  of its (name, value) pairs. (The order of the values under one name is the order in
  which \<^verbatim>\<open>range\<close> visits the configured map, which Go leaves open.) It is the header
  as the plugin builds it; what the transport adds when it sends is the client's.
\<close>

record Request =
  r_method :: string
  r_url :: string
  r_header :: "(string \<times> string) multiset"
  r_body :: string

text \<open>
  What the libraries and the network answer is a parameter of every function below:
  \<^item> \<open>NewRequest_ok m u\<close>: \<^verbatim>\<open>http.NewRequest(m, u, _)\<close> returns no error (it fails on a
    method that is not a token and on a URL that does not parse);
  \<^item> \<open>Do r w\<close>: the client sends \<open>r\<close> in the state \<open>w\<close> of the outside world; \<open>True\<close> when
    a response arrived (of any status code), and the world afterwards;
  \<^item> \<open>Dial u w\<close>: the websocket dialer connects to \<open>u\<close>; \<open>True\<close> on success.
\<close>

record 'w env =
  NewRequest_ok :: "string \<Rightarrow> string \<Rightarrow> bool"
  Do :: "Request \<Rightarrow> 'w \<Rightarrow> bool \<times> 'w"
  Dial :: "string \<Rightarrow> 'w \<Rightarrow> bool \<times> 'w"

text \<open>
  The part of the process state the lifecycle calls act on: the outside world, the URLs
  dialled so far, and the \<^verbatim>\<open>ReadMessages\<close> goroutines started so far (each with its
  \<^verbatim>\<open>serverUrl\<close>). A started goroutine is a Session; nothing in the source ends one short
  of the process exiting or its own select loop returning.
\<close>

record 'w runtime =
  world :: 'w
  dialled :: "string list"
  sessions :: "string list"

section \<open>Template rendering (lines 154-156)\<close>

text \<open>
  \<^verbatim>\<open>strings.Replace(s, old, new, -1)\<close>: scan \<open>s\<close> from the left; where \<open>old\<close> starts, emit
  \<open>new\<close> and go on behind the occurrence (what was emitted is not scanned again);
  elsewhere copy one byte. Both calls of the source pass a non-empty literal for \<open>old\<close>;
  for the empty \<open>old\<close> (where Go inserts \<open>new\<close> around every UTF-8 sequence) the model
  is not meant, and copies \<open>s\<close>.
\<close>

fun Replace :: "string \<Rightarrow> string \<Rightarrow> string \<Rightarrow> string" where
  "Replace old new [] = []"
| "Replace old new (c # cs) =
     (if old \<noteq> [] \<and> prefix old (c # cs)
      then new @ Replace old new (drop (length old) (c # cs))
      else c # Replace old new cs)"

text \<open>\<^verbatim>\<open>strings.Contains(s, substr)\<close>: \<open>substr\<close> occurs in \<open>s\<close>.\<close>

fun Contains :: "string \<Rightarrow> string \<Rightarrow> bool" where
  "Contains [] substr = (substr = [])"
| "Contains (c # cs) substr = (prefix substr (c # cs) \<or> Contains cs substr)"

text \<open>
  Lines 155-156: first every \<^verbatim>\<open>$title\<close> of the body is replaced, then every \<^verbatim>\<open>$message\<close>
  of the result of the first replacement.
\<close>

definition render :: "Message \<Rightarrow> string \<Rightarrow> string" where
  "render msg body =
     Replace ''$message'' (Message msg) (Replace ''$title'' (Title msg) body)"

section \<open>SendMessage (lines 141-177)\<close>

text \<open>
  Lines 143-153: the three defaults, written into the record behind the pointer. The
  Go literal of line 152 is an interpreted string: its \<^verbatim>\<open>\n\<close> is the line feed byte.
\<close>

definition default_header :: "string \<rightharpoonup> string" where
  "default_header = [''Content-Type'' \<mapsto> ''application/json'']"

definition default_body :: string where
  \<open>default_body = ''{"msg":"$title\<newline>$message"}''\<close>

definition apply_defaults :: "WebHook \<Rightarrow> WebHook" where
  "apply_defaults webhook =
     webhook\<lparr>Method := (if Method webhook = [] then ''POST'' else Method webhook),
             Header := (if Header webhook = None then Some default_header
                        else Header webhook),
             Body := (if Body webhook = [] then default_body else Body webhook)\<rparr>"

text \<open>
  Line 165: \<^verbatim>\<open>req.Header.Add(k, v)\<close> stores the value under the canonical form of the key,
  \<^verbatim>\<open>textproto.CanonicalMIMEHeaderKey(k)\<close>: a key with a byte that is not a header field
  byte (a space, for one) is left as it is; otherwise the first letter and every letter
  behind a hyphen are made upper case and all other letters lower case. Keys that differ
  in capitalisation only end under one name.
\<close>

definition validHeaderFieldByte :: "char \<Rightarrow> bool" where
  "validHeaderFieldByte c =
     (c \<in> set (''!#$%&'' @ [CHR 0x27] @ ''*+-.^_'' @ [CHR 0x60] @ ''|~''
               @ ''0123456789''
               @ ''ABCDEFGHIJKLMNOPQRSTUVWXYZ''
               @ ''abcdefghijklmnopqrstuvwxyz''))"

definition toLower :: nat where
  "toLower = of_char CHR ''a'' - of_char CHR ''A''"

fun canonicalMIMEHeaderKey :: "bool \<Rightarrow> string \<Rightarrow> string" where
  "canonicalMIMEHeaderKey upper [] = []"
| "canonicalMIMEHeaderKey upper (c # a) =
     (let c1 = (if upper \<and> of_char CHR ''a'' \<le> (of_char c :: nat)
                        \<and> (of_char c :: nat) \<le> of_char CHR ''z''
                then char_of ((of_char c :: nat) - toLower)
                else if \<not> upper \<and> of_char CHR ''A'' \<le> (of_char c :: nat)
                             \<and> (of_char c :: nat) \<le> of_char CHR ''Z''
                then char_of ((of_char c :: nat) + toLower)
                else c)
      in c1 # canonicalMIMEHeaderKey (c1 = CHR ''-'') a)"

definition CanonicalMIMEHeaderKey :: "string \<Rightarrow> string" where
  "CanonicalMIMEHeaderKey s =
     (if list_all validHeaderFieldByte s then canonicalMIMEHeaderKey True s else s)"

text \<open>
  Lines 164-166: every entry of the configured map (a Go map is finite) is added, its
  key made canonical. Ranging over a nil map adds nothing.
\<close>

definition Header_fields :: "(string \<rightharpoonup> string) \<Rightarrow> (string \<times> string) multiset" where
  "Header_fields m =
     image_mset (\<lambda>(k, v). (CanonicalMIMEHeaderKey k, v)) (mset_set (Map.graph m))"

text \<open>Lines 154-166: the request built for a webhook whose defaults are filled in.\<close>

definition build_request :: "Message \<Rightarrow> WebHook \<Rightarrow> Request" where
  "build_request msg webhook =
     \<lparr>r_method = Method webhook, r_url = Url webhook,
      r_header = (case Header webhook of None \<Rightarrow> {#} | Some m \<Rightarrow> Header_fields m),
      r_body = render msg (Body webhook)\<rparr>"

text \<open>
  One turn of the loop is one delivery attempt. It is recorded with the pointer it went
  to, the request (for a request that \<^verbatim>\<open>http.NewRequest\<close> rejected: the values it was given)
  and how it ended.
\<close>

datatype delivery = RequestRejected | SendFailed | Sent

record attempt =
  target :: ref
  request :: Request
  result :: delivery

text \<open>
  The loop of lines 142-174, one equation per turn. Both error branches (lines 160-163
  and 168-171) leave the function with \<^verbatim>\<open>return err\<close>. The deferred
  \<^verbatim>\<open>res.Body.Close()\<close> and the log lines have no effect on what is modelled.
\<close>

fun SendMessage ::
  "'w env \<Rightarrow> Message \<Rightarrow> ref list \<Rightarrow> store \<Rightarrow> 'w \<Rightarrow> outcome \<times> attempt list \<times> store \<times> 'w"
where
  "SendMessage env msg [] h w = (Returned None, [], h, w)"
| "SendMessage env msg (p # ps) h w =
     (case h p of
        None \<Rightarrow> (Panicked, [], h, w)
      | Some webhook0 \<Rightarrow>
          (let webhook = apply_defaults webhook0;
               h1 = h(p \<mapsto> webhook);
               req = build_request msg webhook
           in if \<not> NewRequest_ok env (Method webhook) (Url webhook)
              then (Returned (Some NewRequestError),
                    [\<lparr>target = p, request = req, result = RequestRejected\<rparr>], h1, w)
              else (case Do env req w of
                      (False, w1) \<Rightarrow>
                        (Returned (Some DoError),
                         [\<lparr>target = p, request = req, result = SendFailed\<rparr>], h1, w1)
                    | (True, w1) \<Rightarrow>
                        (case SendMessage env msg ps h1 w1 of
                           (r, atts, h2, w2) \<Rightarrow>
                             (r, \<lparr>target = p, request = req, result = Sent\<rparr> # atts,
                              h2, w2)))))"

section \<open>The read loop of ReadMessages (lines 190-209)\<close>

text \<open>
  What \<^verbatim>\<open>conn.ReadMessage\<close> returns next: an error, or a frame. A frame is given by what
  \<^verbatim>\<open>json.Unmarshal(message, &msg)\<close> makes of its payload: it returns an error
  (\<open>Malformed\<close>: not JSON, or a member of the wrong type), or the payload is an object
  (or \<^verbatim>\<open>null\<close>) and each of the members \<^verbatim>\<open>title\<close> and \<^verbatim>\<open>message\<close> is either present with a
  string (\<open>Some\<close>) or missing or \<^verbatim>\<open>null\<close> (\<open>None\<close>). Unmarshal stores the members that are
  present into the struct it is given and leaves its other fields as they are.
\<close>

datatype frame = Malformed | Object "string option" "string option"

datatype read_event = ReadError | Frame frame

fun Unmarshal :: "frame \<Rightarrow> Message \<Rightarrow> Message option" where
  "Unmarshal Malformed msg = None"
| "Unmarshal (Object t m) msg =
     Some (msg\<lparr>Title := (case t of None \<Rightarrow> Title msg | Some s \<Rightarrow> s),
               Message := (case m of None \<Rightarrow> Message msg | Some s \<Rightarrow> s)\<rparr>)"

text \<open>
  How the loop ends on a finite sequence of read results: \<^verbatim>\<open>log.Fatal\<close> (lines 196 and
  200) exits the process; a panic in \<^verbatim>\<open>SendMessage\<close> crashes it; otherwise the loop blocks
  in \<^verbatim>\<open>ReadMessage\<close> once the sequence is used up. The loop has no other exit. Where the
  process exits, the variables are reported as they were before the failing call.
\<close>

datatype loop_end = Blocked | FatalRead | FatalDecode | Crashed

text \<open>One call of \<^verbatim>\<open>SendMessage\<close> by the loop (line 204): the Event it was given.\<close>

record dispatch =
  event :: Message
  attempts :: "attempt list"
  returned :: outcome

text \<open>
  The loop, one equation per turn. \<open>msg\<close> is the variable declared before the loop
  (line 190), which every turn decodes into. \<open>hooks\<close> is \<^verbatim>\<open>p.config.WebHooks\<close>.
\<close>

fun read_loop ::
  "'w env \<Rightarrow> ref list \<Rightarrow> read_event list \<Rightarrow> Message \<Rightarrow> store \<Rightarrow> 'w
     \<Rightarrow> loop_end \<times> dispatch list \<times> Message \<times> store \<times> 'w"
where
  "read_loop env hooks [] msg h w = (Blocked, [], msg, h, w)"
| "read_loop env hooks (ReadError # evs) msg h w = (FatalRead, [], msg, h, w)"
| "read_loop env hooks (Frame f # evs) msg h w =
     (case Unmarshal f msg of
        None \<Rightarrow> (FatalDecode, [], msg, h, w)
      | Some msg1 \<Rightarrow>
          (case SendMessage env msg1 hooks h w of
             (r, atts, h1, w1) \<Rightarrow>
               (let d = \<lparr>event = msg1, attempts = atts, returned = r\<rparr>
                in if r = Panicked then (Crashed, [d], msg1, h1, w1)
                   else (case read_loop env hooks evs msg1 h1 w1 of
                           (e, ds, msg2, h2, w2) \<Rightarrow> (e, d # ds, msg2, h2, w2)))))"

text \<open>Line 190: the loop starts from \<^verbatim>\<open>plugin.Message{}\<close>.\<close>

definition empty_Message :: Message where
  "empty_Message = \<lparr>Title = [], Message = []\<rparr>"

section \<open>Lifecycle calls (lines 37-72)\<close>

text \<open>\<^verbatim>\<open>TestSocket\<close> (lines 37-44): one dial; the connection is dropped.\<close>

definition TestSocket :: "'w env \<Rightarrow> string \<Rightarrow> 'w runtime \<Rightarrow> error option \<times> 'w runtime" where
  "TestSocket env serverUrl rt =
     (case Dial env serverUrl (world rt) of
        (ok, w1) \<Rightarrow>
          (if ok then None else Some DialError,
           rt\<lparr>world := w1, dialled := dialled rt @ [serverUrl]\<rparr>))"

text \<open>
  \<^verbatim>\<open>Enable\<close> (lines 47-66). \<^verbatim>\<open>go p.ReadMessages(serverUrl)\<close> starts a goroutine: a new
  entry of \<open>sessions\<close>.
\<close>

definition Enable :: "'w env \<Rightarrow> MultiNotifierPlugin \<Rightarrow> 'w runtime \<Rightarrow> outcome \<times> 'w runtime" where
  "Enable env p rt =
     (case config p of
        None \<Rightarrow> (Panicked, rt)
      | Some c \<Rightarrow>
          if length (HostServer c) < 1
          then (Returned (Some (ErrorString ''please enter the correct web server'')), rt)
          else if length (ClientToken c) < 1
          then (Returned (Some (ErrorString ''please add the client token first'')), rt)
          else (let serverUrl = HostServer c @ ''/stream?token='' @ ClientToken c
                in case TestSocket env serverUrl rt of
                     (Some err, rt1) \<Rightarrow>
                       (Returned (Some (ErrorString
                          ''web server url is not valid, either client_token or url is not valid'')),
                        rt1)
                   | (None, rt1) \<Rightarrow>
                       (Returned None, rt1\<lparr>sessions := sessions rt1 @ [serverUrl]\<rparr>)))"

text \<open>\<^verbatim>\<open>Disable\<close> (lines 69-72): a log line, and \<^verbatim>\<open>return nil\<close>.\<close>

definition Disable ::
  "MultiNotifierPlugin \<Rightarrow> 'w runtime \<Rightarrow> outcome \<times> MultiNotifierPlugin \<times> 'w runtime" where
  "Disable p rt = (Returned None, p, rt)"

section \<open>The select loop of ReadMessages (lines 211-241)\<close>







section \<open>Example inputs\<close>

text \<open>
  An Event, an outside world, three webhooks and a store, on which the theorems below
  are run. The world counts the requests sent; the host \<^verbatim>\<open>down\<close> does not answer; the URL
  \<^verbatim>\<open>%zz\<close> does not parse; only the server at \<^verbatim>\<open>ws://localhost\<close> accepts the token. Address
  \<open>0\<close> is the nil pointer. \<open>hook_bare\<close> has a header map that is set and has no entry.
\<close>

definition msg_example :: Message where
  "msg_example = \<lparr>Title = ''Disk'', Message = ''90% full''\<rparr>"

definition env_example :: "nat env" where
  "env_example =
     \<lparr>NewRequest_ok = (\<lambda>m u. u \<noteq> ''%zz''),
      Do = (\<lambda>r n. (r_url r \<noteq> ''http://down/hook'', Suc n)),
      Dial = (\<lambda>u n. (u = ''ws://localhost/stream?token=CrMo3UaAQG1H37G'', n))\<rparr>"

definition hook_plain :: WebHook where
  "hook_plain = \<lparr>Url = ''http://h/hook'', Method = [], Body = [], Header = None\<rparr>"

definition hook_down :: WebHook where
  "hook_down = \<lparr>Url = ''http://down/hook'', Method = ''PUT'', Body = ''$title'',
                 Header = Some [''x-token'' \<mapsto> ''s3'']\<rparr>"

definition hook_bare :: WebHook where
  "hook_bare = \<lparr>Url = ''http://h/bare'', Method = [], Body = [], Header = Some Map.empty\<rparr>"

definition store_example :: store where
  "store_example = [1 \<mapsto> hook_plain, 2 \<mapsto> hook_down, 3 \<mapsto> hook_bare]"

definition plugin_example :: MultiNotifierPlugin where
  "plugin_example =
     \<lparr>config = Some \<lparr>ClientToken = ''CrMo3UaAQG1H37G'', HostServer = ''ws://localhost'',
                      WebHooks = [1, 2, 3]\<rparr>\<rparr>"

definition runtime_example :: "nat runtime" where
  "runtime_example = \<lparr>world = 0, dialled = [], sessions = []\<rparr>"

section \<open>Properties of the template renderer\<close>

text \<open>
  A string in which \<open>old\<close> does not occur is copied; an occurrence at the front is replaced
  and the scan goes on behind it. Each placeholder starts with the dollar sign and has no
  other, so no occurrence reaches across a dollar sign: the scan of \<open>a @ $ b\<close> is the scan
  of \<open>a\<close> followed by the scan of \<open>$ b\<close>.
\<close>

lemma Replace_absent: "\<not> Contains s old \<Longrightarrow> Replace old new s = s"
  by (induction s) auto

lemma Replace_head: "old \<noteq> [] \<Longrightarrow> Replace old new (old @ s) = new @ Replace old new s"
  by (cases old) auto

lemma prefix_before_dollar:
  assumes "CHR ''$'' \<notin> set r" and "prefix (c # r) (a @ CHR ''$'' # b)" and "a \<noteq> []"
  shows "prefix (c # r) a"
proof -
  obtain a0 as where a: "a = a0 # as" using assms(3) by (cases a) auto
  from assms(2) a have p: "prefix r (as @ CHR ''$'' # b)" and c: "c = a0" by auto
  have "prefix r as"
  proof (rule ccontr)
    assume n: "\<not> prefix r as"
    from p obtain z where z: "as @ CHR ''$'' # b = r @ z" by (auto simp: prefix_def)
    show False
    proof (cases "length r \<le> length as")
      case True
      with z have "prefix r as"
        by (metis append_eq_append_conv_if prefixI append_take_drop_id prefix_def)
      with n show False by simp
    next
      case False
      hence "length as < length r" by simp
      hence "r ! length as = (as @ CHR ''$'' # b) ! length as"
        using z by (metis nth_append)
      hence "r ! length as = CHR ''$''" by simp
      with \<open>length as < length r\<close> assms(1) show False by (metis nth_mem)
    qed
  qed
  with a c show ?thesis by simp
qed

lemma Replace_dollar:
  assumes "CHR ''$'' \<notin> set r"
  shows "Replace (CHR ''$'' # r) new (a @ CHR ''$'' # b)
         = Replace (CHR ''$'' # r) new a @ Replace (CHR ''$'' # r) new (CHR ''$'' # b)"
proof (induction a rule: length_induct)
  case (1 a)
  show ?case
  proof (cases a)
    case Nil
    then show ?thesis by simp
  next
    case (Cons c cs)
    let ?old = "CHR ''$'' # r"
    show ?thesis
    proof (cases "prefix ?old (a @ CHR ''$'' # b)")
      case True
      have "a \<noteq> []" using Cons by simp
      from prefix_before_dollar[OF assms True this] have pa: "prefix ?old a" .
      then obtain z where z: "a = ?old @ z" by (auto simp: prefix_def)
      have "length z < length a" using z by simp
      with 1 have "Replace ?old new (z @ CHR ''$'' # b)
          = Replace ?old new z @ Replace ?old new (CHR ''$'' # b)" by blast
      moreover have "Replace ?old new (a @ CHR ''$'' # b) = new @ Replace ?old new (z @ CHR ''$'' # b)"
        using z Replace_head[of ?old new "z @ CHR ''$'' # b"] by simp
      moreover have "Replace ?old new a = new @ Replace ?old new z"
        using z Replace_head[of ?old new z] by simp
      ultimately show ?thesis by simp
    next
      case False
      hence na: "\<not> prefix ?old a" by (metis prefix_prefix)
      have "length cs < length a" using Cons by simp
      with 1 have ih: "Replace ?old new (cs @ CHR ''$'' # b)
          = Replace ?old new cs @ Replace ?old new (CHR ''$'' # b)" by blast
      from False Cons have "\<not> prefix ?old (c # (cs @ CHR ''$'' # b))" by simp
      hence l: "Replace ?old new (c # (cs @ CHR ''$'' # b)) = c # Replace ?old new (cs @ CHR ''$'' # b)"
        by (subst Replace.simps(2)) (simp only: simp_thms if_False)
      from na Cons have "\<not> prefix ?old (c # cs)" by simp
      hence r: "Replace ?old new (c # cs) = c # Replace ?old new cs"
        by (subst Replace.simps(2)) (simp only: simp_thms if_False)
      have "Replace ?old new (a @ CHR ''$'' # b) = c # Replace ?old new (cs @ CHR ''$'' # b)"
        using l Cons by simp
      also have "\<dots> = (c # Replace ?old new cs) @ Replace ?old new (CHR ''$'' # b)"
        by (simp only: ih append_Cons)
      also have "\<dots> = Replace ?old new a @ Replace ?old new (CHR ''$'' # b)"
        by (simp only: r Cons)
      finally show ?thesis .
    qed
  qed
qed

lemma title_pass_at_title:
  "Replace ''$title'' t (pre @ ''$title'' @ post)
   = Replace ''$title'' t pre @ t @ Replace ''$title'' t post"
proof -
  have "Replace ''$title'' t (pre @ CHR ''$'' # (''title'' @ post))
        = Replace ''$title'' t pre @ Replace ''$title'' t (CHR ''$'' # (''title'' @ post))"
    using Replace_dollar[of "''title''" t pre "''title'' @ post"] by simp
  moreover have "Replace ''$title'' t (''$title'' @ post) = t @ Replace ''$title'' t post"
    by (rule Replace_head) simp
  ultimately show ?thesis by simp
qed

lemma title_pass_at_message:
  "Replace ''$title'' t (pre @ ''$message'' @ post)
   = Replace ''$title'' t pre @ ''$message'' @ Replace ''$title'' t post"
proof -
  have "Replace ''$title'' t (pre @ CHR ''$'' # (''message'' @ post))
        = Replace ''$title'' t pre @ Replace ''$title'' t (CHR ''$'' # (''message'' @ post))"
    using Replace_dollar[of "''title''" t pre "''message'' @ post"] by simp
  moreover have "Replace ''$title'' t (''$message'' @ post) = ''$message'' @ Replace ''$title'' t post"
    by simp
  ultimately show ?thesis by simp
qed

lemma message_pass_at_message:
  "Replace ''$message'' m (pre @ ''$message'' @ post)
   = Replace ''$message'' m pre @ m @ Replace ''$message'' m post"
proof -
  have "Replace ''$message'' m (pre @ CHR ''$'' # (''message'' @ post))
        = Replace ''$message'' m pre @ Replace ''$message'' m (CHR ''$'' # (''message'' @ post))"
    using Replace_dollar[of "''message''" m pre "''message'' @ post"] by simp
  moreover have "Replace ''$message'' m (''$message'' @ post) = m @ Replace ''$message'' m post"
    by (rule Replace_head) simp
  ultimately show ?thesis by simp
qed

lemma render_at_message:
  "render msg (pre @ ''$message'' @ post) = render msg pre @ Message msg @ render msg post"
  unfolding render_def title_pass_at_message message_pass_at_message ..

lemma render_at_title:
  "render msg (pre @ ''$title'' @ post)
   = Replace ''$message'' (Message msg)
       (Replace ''$title'' (Title msg) pre @ Title msg @ Replace ''$title'' (Title msg) post)"
  unfolding render_def title_pass_at_title ..

lemma render_absent:
  "\<not> Contains body ''$title'' \<Longrightarrow> \<not> Contains body ''$message'' \<Longrightarrow> render msg body = body"
  by (simp add: render_def Replace_absent del: Contains.simps Replace.simps)

text \<open>
  A character that is not in \<open>old\<close> belongs to no occurrence of \<open>old\<close>: the scan of
  \<open>a @ c # b\<close> is the scan of \<open>a\<close>, then \<open>c\<close>, then the scan of \<open>b\<close>. A text without dollar
  sign in front is copied by either pass.
\<close>

lemma prefix_before_foreign:
  assumes "c \<notin> set old" and "prefix old (a @ c # b)"
  shows "prefix old a"
proof (rule ccontr)
  assume n: "\<not> prefix old a"
  from assms(2) obtain z where z: "a @ c # b = old @ z" by (auto simp: prefix_def)
  show False
  proof (cases "length old \<le> length a")
    case True
    with z have "prefix old a"
      by (metis append_eq_append_conv_if prefixI append_take_drop_id prefix_def)
    with n show False by simp
  next
    case False
    hence l: "length a < length old" by simp
    hence "old ! length a = (a @ c # b) ! length a" using z by (metis nth_append)
    hence "old ! length a = c" by simp
    with l assms(1) show False by (metis nth_mem)
  qed
qed

lemma Replace_foreign:
  assumes "c \<notin> set old"
  shows "Replace old new (a @ c # b) = Replace old new a @ c # Replace old new b"
proof (induction a rule: length_induct)
  case (1 a)
  show ?case
  proof (cases a)
    case Nil
    have "\<not> prefix old (c # b) \<or> old = []" using assms by (cases old) auto
    then have "Replace old new (c # b) = c # Replace old new b"
      by (subst Replace.simps(2)) auto
    with Nil show ?thesis by simp
  next
    case (Cons x xs)
    show ?thesis
    proof (cases "old \<noteq> [] \<and> prefix old (a @ c # b)")
      case True
      from prefix_before_foreign[OF assms] True have pa: "prefix old a" by blast
      then obtain z where z: "a = old @ z" by (auto simp: prefix_def)
      have "length z < length a" using z True by simp
      with 1 have "Replace old new (z @ c # b)
          = Replace old new z @ c # Replace old new b" by blast
      moreover have "Replace old new (a @ c # b) = new @ Replace old new (z @ c # b)"
        using z True Replace_head[of old new "z @ c # b"] by simp
      moreover have "Replace old new a = new @ Replace old new z"
        using z True Replace_head[of old new z] by simp
      ultimately show ?thesis by simp
    next
      case False
      hence na: "\<not> (old \<noteq> [] \<and> prefix old a)" by (metis prefix_prefix)
      have "length xs < length a" using Cons by simp
      with 1 have ih: "Replace old new (xs @ c # b)
          = Replace old new xs @ c # Replace old new b" by blast
      from False Cons have "\<not> (old \<noteq> [] \<and> prefix old (x # (xs @ c # b)))" by simp
      hence l: "Replace old new (x # (xs @ c # b)) = x # Replace old new (xs @ c # b)"
        by (subst Replace.simps(2)) (simp only: if_False)
      from na Cons have "\<not> (old \<noteq> [] \<and> prefix old (x # xs))" by simp
      hence r: "Replace old new (x # xs) = x # Replace old new xs"
        by (subst Replace.simps(2)) (simp only: if_False)
      have "Replace old new (a @ c # b) = x # Replace old new (xs @ c # b)"
        using l Cons by simp
      also have "\<dots> = (x # Replace old new xs) @ c # Replace old new b"
        by (simp only: ih append_Cons)
      also have "\<dots> = Replace old new a @ c # Replace old new b"
        by (simp only: r Cons)
      finally show ?thesis .
    qed
  qed
qed

lemma Replace_no_dollar:
  "CHR ''$'' \<notin> set t \<Longrightarrow> Replace (CHR ''$'' # r) new (t @ b) = t @ Replace (CHR ''$'' # r) new b"
proof (induction t)
  case Nil
  show ?case by simp
next
  case (Cons x xs)
  then have "x \<noteq> CHR ''$''" by auto
  then have "Replace (CHR ''$'' # r) new (x # (xs @ b)) = x # Replace (CHR ''$'' # r) new (xs @ b)"
    by (subst Replace.simps(2)) simp
  with Cons show ?case by simp
qed

lemma render_title_verbatim:
  assumes "Title msg \<noteq> []" and "hd (Title msg) \<notin> set ''$message''"
    and "CHR ''$'' \<notin> set (Title msg)"
  shows "render msg (pre @ ''$title'' @ post) = render msg pre @ Title msg @ render msg post"
proof -
  obtain c ts where t: "Title msg = c # ts" using assms(1) by (cases "Title msg") auto
  with assms have c: "c \<notin> set ''$message''" and ts: "CHR ''$'' \<notin> set ts" by auto
  let ?A = "Replace ''$title'' (Title msg) pre" and ?B = "Replace ''$title'' (Title msg) post"
  have "Replace ''$message'' (Message msg) (?A @ c # (ts @ ?B))
        = Replace ''$message'' (Message msg) ?A
          @ c # Replace ''$message'' (Message msg) (ts @ ?B)"
    by (rule Replace_foreign[OF c])
  moreover have "Replace ''$message'' (Message msg) (ts @ ?B)
        = ts @ Replace ''$message'' (Message msg) ?B"
    using Replace_no_dollar[OF ts, of "''message''"] by simp
  ultimately show ?thesis unfolding render_at_title by (simp add: render_def t)
qed

section \<open>Properties of SendMessage\<close>

text \<open>
  One turn of the loop, by cases: the pointer is nil; the request is rejected; the send
  fails; the request is sent and the loop goes on with the rest of the slice.
\<close>

lemma SendMessage_Cons_cases [consumes 1, case_names nil rejected failed sent]:
  assumes "SendMessage env msg (p # ps) h w = (r, atts, h', w')"
  obtains
    "h p = None" "r = Panicked" "atts = []" "h' = h" "w' = w"
  | webhook where "h p = Some webhook"
      "\<not> NewRequest_ok env (Method (apply_defaults webhook)) (Url (apply_defaults webhook))"
      "r = Returned (Some NewRequestError)"
      "atts = [\<lparr>target = p, request = build_request msg (apply_defaults webhook),
                result = RequestRejected\<rparr>]"
      "h' = h(p \<mapsto> apply_defaults webhook)" "w' = w"
  | webhook where "h p = Some webhook"
      "NewRequest_ok env (Method (apply_defaults webhook)) (Url (apply_defaults webhook))"
      "Do env (build_request msg (apply_defaults webhook)) w = (False, w')"
      "r = Returned (Some DoError)"
      "atts = [\<lparr>target = p, request = build_request msg (apply_defaults webhook),
                result = SendFailed\<rparr>]"
      "h' = h(p \<mapsto> apply_defaults webhook)"
  | webhook w1 atts1 where "h p = Some webhook"
      "NewRequest_ok env (Method (apply_defaults webhook)) (Url (apply_defaults webhook))"
      "Do env (build_request msg (apply_defaults webhook)) w = (True, w1)"
      "SendMessage env msg ps (h(p \<mapsto> apply_defaults webhook)) w1 = (r, atts1, h', w')"
      "atts = \<lparr>target = p, request = build_request msg (apply_defaults webhook),
               result = Sent\<rparr> # atts1"
  using assms
  by (auto simp: Let_def split: option.splits if_splits prod.splits bool.splits)

lemma apply_defaults_idem: "apply_defaults (apply_defaults webhook) = apply_defaults webhook"
  by (simp add: apply_defaults_def default_body_def)

lemma SendMessage_targets:
  "SendMessage env msg hooks h w = (r, atts, h', w')
   \<Longrightarrow> map target atts = take (length atts) hooks"
proof (induction hooks arbitrary: h w r atts h' w')
  case Nil
  then show ?case by simp
next
  case (Cons p ps)
  from Cons.prems show ?case
  proof (cases rule: SendMessage_Cons_cases)
    case (sent webhook w1 atts1)
    with Cons.IH show ?thesis by simp
  qed simp_all
qed

lemma SendMessage_failure_last:
  "SendMessage env msg hooks h w = (r, atts, h', w') \<Longrightarrow> i < length atts
   \<Longrightarrow> result (atts ! i) \<noteq> Sent \<Longrightarrow> Suc i = length atts \<and> (\<exists>e. r = Returned (Some e))"
proof (induction hooks arbitrary: h w r atts h' w' i)
  case Nil
  then show ?case by simp
next
  case (Cons p ps)
  from Cons.prems(1) show ?case
  proof (cases rule: SendMessage_Cons_cases)
    case (sent webhook w1 atts1)
    show ?thesis
    proof (cases i)
      case 0
      with sent Cons.prems show ?thesis by simp
    next
      case (Suc j)
      with sent Cons.prems have "j < length atts1" "result (atts1 ! j) \<noteq> Sent" by simp_all
      from Cons.IH[OF sent(4) this] Suc sent show ?thesis by simp
    qed
  qed (use Cons.prems in simp_all)
qed

lemma SendMessage_all_sent:
  "set hooks \<subseteq> dom h \<Longrightarrow> SendMessage env msg hooks h w = (r, atts, h', w')
   \<Longrightarrow> \<forall>i<length atts. result (atts ! i) = Sent
   \<Longrightarrow> length atts = length hooks \<and> r = Returned None"
proof (induction hooks arbitrary: h w r atts h' w')
  case Nil
  then show ?case by simp
next
  case (Cons p ps)
  from Cons.prems(2) show ?case
  proof (cases rule: SendMessage_Cons_cases)
    case nil
    with Cons.prems(1) show ?thesis by auto
  next
    case (rejected webhook)
    with Cons.prems(3) have "result (atts ! 0) = Sent" by blast
    with rejected show ?thesis by simp
  next
    case (failed webhook)
    with Cons.prems(3) have "result (atts ! 0) = Sent" by blast
    with failed show ?thesis by simp
  next
    case (sent webhook w1 atts1)
    have sub: "set ps \<subseteq> dom (h(p \<mapsto> apply_defaults webhook))"
      using Cons.prems(1) by auto
    have "\<forall>i<length atts1. result (atts1 ! i) = Sent"
      using Cons.prems(3) sent(5) by auto
    from Cons.IH[OF sub sent(4) this] sent(5) show ?thesis by simp
  qed
qed

lemma SendMessage_requests:
  "SendMessage env msg hooks h w = (r, atts, h', w') \<Longrightarrow> i < length atts
   \<Longrightarrow> \<exists>webhook. h (hooks ! i) = Some webhook
         \<and> request (atts ! i) = build_request msg (apply_defaults webhook)"
proof (induction hooks arbitrary: h w r atts h' w' i)
  case Nil
  then show ?case by simp
next
  case (Cons p ps)
  from Cons.prems(1) show ?case
  proof (cases rule: SendMessage_Cons_cases)
    case (sent webhook w1 atts1)
    show ?thesis
    proof (cases i)
      case 0
      with sent show ?thesis by simp
    next
      case (Suc j)
      with sent Cons.prems have "j < length atts1" by simp
      from Cons.IH[OF sent(4) this] obtain wh1 where
        wh1: "(h(p \<mapsto> apply_defaults webhook)) (ps ! j) = Some wh1"
        and rq: "request (atts1 ! j) = build_request msg (apply_defaults wh1)" by blast
      show ?thesis
      proof (cases "ps ! j = p")
        case True
        with wh1 have "wh1 = apply_defaults webhook" by simp
        with rq True sent Suc show ?thesis by (simp add: apply_defaults_idem)
      next
        case False
        with wh1 rq sent Suc show ?thesis by simp
      qed
    qed
  qed (use Cons.prems in simp_all)
qed

lemma SendMessage_store:
  "SendMessage env msg hooks h w = (r, atts, h', w')
   \<Longrightarrow> h' q = (if q \<in> target ` set atts then map_option apply_defaults (h q) else h q)"
proof (induction hooks arbitrary: h w r atts h' w')
  case Nil
  then show ?case by simp
next
  case (Cons p ps)
  from Cons.prems(1) show ?case
  proof (cases rule: SendMessage_Cons_cases)
    case (sent webhook w1 atts1)
    from Cons.IH[OF sent(4)] sent(1,5) show ?thesis
      by (auto simp: apply_defaults_idem)
  qed auto
qed

text \<open>
  How each attempt ended is what the outside world answered in it; the world after the
  call is the world after the sends made; the error returned is the one of the attempt
  that failed.
\<close>

lemma SendMessage_results:
  "SendMessage env msg hooks h w = (r, atts, h', w') \<Longrightarrow> i < length atts
   \<Longrightarrow> result (atts ! i) =
        (if \<not> NewRequest_ok env (r_method (request (atts ! i))) (r_url (request (atts ! i)))
         then RequestRejected
         else if fst (Do env (request (atts ! i))
                        (foldl (\<lambda>w a. snd (Do env (request a) w)) w (take i atts)))
         then Sent else SendFailed)"
proof (induction hooks arbitrary: h w r atts h' w' i)
  case Nil
  then show ?case by simp
next
  case (Cons p ps)
  from Cons.prems(1) show ?case
  proof (cases rule: SendMessage_Cons_cases)
    case nil
    with Cons.prems(2) show ?thesis by simp
  next
    case (rejected webhook)
    with Cons.prems(2) show ?thesis by (simp add: build_request_def)
  next
    case (failed webhook)
    with Cons.prems(2) show ?thesis by (simp add: build_request_def)
  next
    case (sent webhook w1 atts1)
    show ?thesis
    proof (cases i)
      case 0
      with sent show ?thesis by (simp add: build_request_def)
    next
      case (Suc j)
      with sent Cons.prems(2) have "j < length atts1" by simp
      from Cons.IH[OF sent(4) this] Suc sent(3,5) show ?thesis by simp
    qed
  qed
qed

lemma SendMessage_world:
  "SendMessage env msg hooks h w = (r, atts, h', w')
   \<Longrightarrow> w' = foldl (\<lambda>w a. if result a = RequestRejected then w
                          else snd (Do env (request a) w)) w atts"
proof (induction hooks arbitrary: h w r atts h' w')
  case Nil
  then show ?case by simp
next
  case (Cons p ps)
  from Cons.prems(1) show ?case
  proof (cases rule: SendMessage_Cons_cases)
    case (sent webhook w1 atts1)
    from Cons.IH[OF sent(4)] sent(3,5) show ?thesis by simp
  qed simp_all
qed

lemma SendMessage_error:
  "SendMessage env msg hooks h w = (r, atts, h', w') \<Longrightarrow> i < length atts
   \<Longrightarrow> result (atts ! i) \<noteq> Sent
   \<Longrightarrow> r = Returned (Some (if result (atts ! i) = RequestRejected then NewRequestError
                            else DoError))"
proof (induction hooks arbitrary: h w r atts h' w' i)
  case Nil
  then show ?case by simp
next
  case (Cons p ps)
  from Cons.prems(1) show ?case
  proof (cases rule: SendMessage_Cons_cases)
    case (sent webhook w1 atts1)
    show ?thesis
    proof (cases i)
      case 0
      with sent Cons.prems show ?thesis by simp
    next
      case (Suc j)
      with sent Cons.prems have "j < length atts1" "result (atts1 ! j) \<noteq> Sent" by simp_all
      from Cons.IH[OF sent(4) this] Suc sent show ?thesis by simp
    qed
  qed (use Cons.prems in simp_all)
qed

text \<open>
  The header fields of a map without entries, of a map with one entry, and of the
  default header map.
\<close>

lemma canonical_Content_Type: "CanonicalMIMEHeaderKey ''Content-Type'' = ''Content-Type''"
  by code_simp

lemma canonical_x_token: "CanonicalMIMEHeaderKey ''x-token'' = ''X-Token''"
  by code_simp

lemma Header_fields_empty: "Header_fields Map.empty = {#}"
  by (simp add: Header_fields_def)

lemma Header_fields_single: "Header_fields [k \<mapsto> v] = {#(CanonicalMIMEHeaderKey k, v)#}"
  by (simp add: Header_fields_def graph_fun_upd_None)

lemma Header_fields_default:
  "Header_fields default_header = {#(''Content-Type'', ''application/json'')#}"
  by (simp add: default_header_def Header_fields_single canonical_Content_Type)

lemmas example_defs = msg_example_def env_example_def hook_plain_def hook_down_def
  hook_bare_def store_example_def apply_defaults_def build_request_def render_def
  default_body_def default_header_def Let_def

section \<open>Properties of the select loop\<close>


section \<open>The claims\<close>

text \<open>
  Claim C1, as stated, fails. Both error branches of the loop return: with the two
  Targets \<open>[2, 1]\<close>, of which the first does not answer, \<^verbatim>\<open>SendMessage\<close> makes one attempt,
  not two, and Target \<open>1\<close> is never tried.
\<close>

theorem SendMessage_stops_at_failure_counterexample:
  "fst (SendMessage env_example msg_example [2, 1] store_example 0) = Returned (Some DoError)
   \<and> map target (fst (snd (SendMessage env_example msg_example [2, 1] store_example 0))) = [2]
   \<and> map result (fst (snd (SendMessage env_example msg_example [2, 1] store_example 0)))
       = [SendFailed]
   \<and> length (fst (snd (SendMessage env_example msg_example [2, 1] store_example 0)))
       \<noteq> length [2, 1 :: ref]"
  by (simp add: example_defs)

text \<open>
  Claim C1, amended. For every Event and every list of N Targets (none a nil pointer),
  \<^verbatim>\<open>SendMessage\<close> attempts the Targets in list order and stops at the first attempt that
  fails: the attempts made are for an initial segment of the list, one per Target, in
  order; if no attempt fails there are exactly N and nil is returned; an attempt that
  fails (request construction error or send error) is the last one made, its error is
  returned, and the Targets behind it are not attempted. Whether an attempt fails is
  what \<^verbatim>\<open>http.NewRequest\<close> and the client answer for its request, the client in the world
  left by the attempts before it.
\<close>

theorem SendMessage_stops_at_first_failure:
  assumes "set hooks \<subseteq> dom h" and "SendMessage env msg hooks h w = (r, atts, h', w')"
  shows "map target atts = take (length atts) hooks
     \<and> (\<forall>i<length atts. \<exists>webhook. h (hooks ! i) = Some webhook
           \<and> request (atts ! i) = build_request msg (apply_defaults webhook))
     \<and> (\<forall>i<length atts. result (atts ! i) =
           (if \<not> NewRequest_ok env (r_method (request (atts ! i))) (r_url (request (atts ! i)))
            then RequestRejected
            else if fst (Do env (request (atts ! i))
                           (foldl (\<lambda>w a. snd (Do env (request a) w)) w (take i atts)))
            then Sent else SendFailed))
     \<and> (\<forall>i<length atts. result (atts ! i) \<noteq> Sent \<longrightarrow>
           Suc i = length atts
           \<and> r = Returned (Some (if result (atts ! i) = RequestRejected then NewRequestError
                                 else DoError)))
     \<and> ((\<forall>i<length atts. result (atts ! i) = Sent)
          \<longrightarrow> length atts = length hooks \<and> r = Returned None)
     \<and> w' = foldl (\<lambda>w a. if result a = RequestRejected then w
                           else snd (Do env (request a) w)) w atts"
proof (intro conjI allI impI)
  show "map target atts = take (length atts) hooks" by (rule SendMessage_targets[OF assms(2)])
next
  fix i assume "i < length atts"
  then show "\<exists>webhook. h (hooks ! i) = Some webhook
           \<and> request (atts ! i) = build_request msg (apply_defaults webhook)"
    by (rule SendMessage_requests[OF assms(2)])
next
  fix i assume "i < length atts"
  then show "result (atts ! i) =
           (if \<not> NewRequest_ok env (r_method (request (atts ! i))) (r_url (request (atts ! i)))
            then RequestRejected
            else if fst (Do env (request (atts ! i))
                           (foldl (\<lambda>w a. snd (Do env (request a) w)) w (take i atts)))
            then Sent else SendFailed)"
    by (rule SendMessage_results[OF assms(2)])
next
  fix i assume "i < length atts" "result (atts ! i) \<noteq> Sent"
  then show "Suc i = length atts" using SendMessage_failure_last[OF assms(2)] by blast
next
  fix i assume "i < length atts" "result (atts ! i) \<noteq> Sent"
  then show "r = Returned (Some (if result (atts ! i) = RequestRejected then NewRequestError
                                 else DoError))"
    by (rule SendMessage_error[OF assms(2)])
next
  assume "\<forall>i<length atts. result (atts ! i) = Sent"
  then show "length atts = length hooks" using SendMessage_all_sent[OF assms] by blast
next
  assume "\<forall>i<length atts. result (atts ! i) = Sent"
  then show "r = Returned None" using SendMessage_all_sent[OF assms] by blast
next
  show "w' = foldl (\<lambda>w a. if result a = RequestRejected then w
                           else snd (Do env (request a) w)) w atts"
    by (rule SendMessage_world[OF assms(2)])
qed

theorem SendMessage_stops_at_first_failure_witness:
  "set [1, 3] \<subseteq> dom store_example
   \<and> (case SendMessage env_example msg_example [1, 3] store_example 0 of
        (r, atts, h', w') \<Rightarrow>
          r = Returned None \<and> map target atts = [1, 3] \<and> map result atts = [Sent, Sent]
          \<and> w' = 2)
   \<and> set [1, 2, 3] \<subseteq> dom store_example
   \<and> (case SendMessage env_example msg_example [1, 2, 3] store_example 0 of
        (r, atts, h', w') \<Rightarrow>
          r = Returned (Some DoError) \<and> map target atts = [1, 2]
          \<and> map result atts = [Sent, SendFailed] \<and> w' = 2)"
proof -
  have d1: "set [1, 3] \<subseteq> dom store_example" and d2: "set [1, 2, 3] \<subseteq> dom store_example"
    by (simp_all add: store_example_def)
  obtain r1 atts1 h1 w1 where
    run1: "SendMessage env_example msg_example [1, 3] store_example 0 = (r1, atts1, h1, w1)"
    by (metis prod_cases4)
  obtain r2 atts2 h2 w2 where
    run2: "SendMessage env_example msg_example [1, 2, 3] store_example 0 = (r2, atts2, h2, w2)"
    by (metis prod_cases4)
  have res1: "map result atts1 = [Sent, Sent]" and wo1: "w1 = 2"
    using run1 by (auto simp add: example_defs)
  have res2: "map result atts2 = [Sent, SendFailed]" and wo2: "w2 = 2"
    using run2 by (auto simp add: example_defs)
  from res1 have l1: "length atts1 = 2"
    by (metis length_map length_Cons list.size(3) numeral_2_eq_2)
  from res2 have l2: "length atts2 = 2"
    by (metis length_map length_Cons list.size(3) numeral_2_eq_2)
  have all1: "\<forall>i<length atts1. result (atts1 ! i) = Sent"
  proof (intro allI impI)
    fix i assume "i < length atts1"
    then have "result (atts1 ! i) = [Sent, Sent] ! i" using res1 by (metis nth_map)
    moreover have "i = 0 \<or> i = 1" using \<open>i < length atts1\<close> l1 by auto
    ultimately show "result (atts1 ! i) = Sent" by auto
  qed
  have "result (atts2 ! 1) = [Sent, SendFailed] ! 1" using res2 l2 by (metis nth_map one_less_numeral_iff semiring_norm(76))
  then have f2: "result (atts2 ! 1) = SendFailed" by simp
  note t1 = SendMessage_stops_at_first_failure[OF d1 run1]
  note t2 = SendMessage_stops_at_first_failure[OF d2 run2]
  have "map target atts1 = [1, 3]" using t1[THEN conjunct1] l1 by simp
  moreover have "r1 = Returned None"
    using t1[THEN conjunct2, THEN conjunct2, THEN conjunct2, THEN conjunct2, THEN conjunct1]
      all1 by blast
  moreover have "map target atts2 = [1, 2]" using t2[THEN conjunct1] l2 by simp
  moreover have "r2 = Returned (Some DoError)"
  proof -
    have "1 < length atts2" "result (atts2 ! 1) \<noteq> Sent" using l2 f2 by simp_all
    from t2[THEN conjunct2, THEN conjunct2, THEN conjunct2, THEN conjunct1, rule_format, OF this]
    show ?thesis using f2 by simp
  qed
  ultimately show ?thesis using d1 d2 run1 run2 res1 res2 wo1 wo2 by simp
qed

text \<open>
  Claim C2. A frame that does not decode ends the Session without a call of the
  Dispatcher for it, and nothing is read after it: on the frames \<open>pre\<close>, then a
  malformed frame, then any frames \<open>rest\<close>, the loop does what it does on \<open>pre\<close> alone
  (the same calls of the Dispatcher, the same store and world), and where on \<open>pre\<close> alone
  it would wait for the next frame, it ends in the fatal decode error (line 200:
  \<^verbatim>\<open>log.Fatal\<close>, which exits the process).
\<close>

theorem read_loop_decode_error_is_fatal:
  "read_loop env hooks (pre @ Frame Malformed # rest) msg h w =
     (case read_loop env hooks pre msg h w of
        (e, ds, msg', h', w') \<Rightarrow> (if e = Blocked then FatalDecode else e, ds, msg', h', w'))"
proof (induction pre arbitrary: msg h w)
  case Nil
  show ?case by simp
next
  case (Cons ev pre)
  show ?case
  proof (cases ev)
    case ReadError
    then show ?thesis by simp
  next
    case (Frame f)
    show ?thesis
    proof (cases "Unmarshal f msg")
      case None
      with Frame show ?thesis by simp
    next
      case (Some msg1)
      obtain r atts h1 w1 where s: "SendMessage env msg1 hooks h w = (r, atts, h1, w1)"
        by (metis prod_cases4)
      show ?thesis
      proof (cases "r = Panicked")
        case True
        with Frame Some s show ?thesis by simp
      next
        case False
        obtain e ds msg2 h2 w2 where
          l: "read_loop env hooks pre msg1 h1 w1 = (e, ds, msg2, h2, w2)"
          by (metis prod_cases5)
        with Frame Some s False Cons.IH[of msg1 h1 w1] show ?thesis by simp
      qed
    qed
  qed
qed

theorem read_loop_decode_error_is_fatal_witness:
  "(case read_loop env_example [1]
           ([Frame (Object (Some ''Disk'') (Some ''90% full''))]
            @ Frame Malformed # [Frame (Object (Some ''Net'') (Some ''down''))])
           empty_Message store_example 0 of
      (e, ds, msg', h', w') \<Rightarrow>
        e = FatalDecode \<and> map event ds = [\<lparr>Title = ''Disk'', Message = ''90% full''\<rparr>] \<and> w' = 1)"
  using read_loop_decode_error_is_fatal
    [of env_example "[1]" "[Frame (Object (Some ''Disk'') (Some ''90% full''))]"
        "[Frame (Object (Some ''Net'') (Some ''down''))]" empty_Message store_example 0]
  by (simp add: example_defs empty_Message_def)

text \<open>
  Claim C3, as stated, fails. The title put in for \<^verbatim>\<open>$title\<close> is itself searched by the
  \<^verbatim>\<open>$message\<close> pass, together with the text around it: the body \<^verbatim>\<open>$mess$title\<close> with the
  title \<^verbatim>\<open>age\<close> and the message \<^verbatim>\<open>X\<close> renders to \<^verbatim>\<open>X\<close>; the output has the title nowhere.
\<close>

theorem render_title_completes_message_counterexample:
  "render \<lparr>Title = ''age'', Message = ''X''\<rparr> ''$mess$title'' = ''X''
   \<and> render \<lparr>Title = ''age'', Message = ''X''\<rparr> ''$mess$title'' \<noteq> ''$mess'' @ ''age''"
  by (simp add: render_def)

text \<open>
  Claim C3, amended. Rendering is a total function. A body in which neither placeholder
  occurs is returned unchanged. Wherever \<^verbatim>\<open>$title\<close> occurs in a body, the first pass puts
  the Event's title there and treats the text before and the text behind on their own;
  the \<^verbatim>\<open>$message\<close> pass then runs over the result, the titles put in included. The
  title stands in the output as it is, between the renderings of the text before and of
  the text behind, whenever it has no dollar sign and begins with a character that is
  none of \<^verbatim>\<open>$message\<close>. Wherever \<^verbatim>\<open>$message\<close> occurs in a body, the output has the Event's
  message there, between the renderings of the text before and of the text behind.
\<close>

theorem render_replaces_every_occurrence:
  "(\<not> Contains body ''$title'' \<and> \<not> Contains body ''$message'' \<longrightarrow> render msg body = body)
   \<and> render msg (pre @ ''$title'' @ post)
       = Replace ''$message'' (Message msg)
           (Replace ''$title'' (Title msg) pre @ Title msg @ Replace ''$title'' (Title msg) post)
   \<and> (Title msg \<noteq> [] \<and> hd (Title msg) \<notin> set ''$message'' \<and> CHR ''$'' \<notin> set (Title msg)
        \<longrightarrow> render msg (pre @ ''$title'' @ post)
            = render msg pre @ Title msg @ render msg post)
   \<and> render msg (pre @ ''$message'' @ post)
       = render msg pre @ Message msg @ render msg post"
  using render_absent render_at_title render_at_message render_title_verbatim by blast

theorem render_replaces_every_occurrence_witness:
  "\<not> Contains ''disk alert'' ''$title'' \<and> \<not> Contains ''disk alert'' ''$message''
   \<and> render \<lparr>Title = ''Disk'', Message = ''90% full''\<rparr> ''disk alert'' = ''disk alert''
   \<and> Title \<lparr>Title = ''Disk'', Message = ''90% full''\<rparr> \<noteq> []
   \<and> hd (Title \<lparr>Title = ''Disk'', Message = ''90% full''\<rparr>) \<notin> set ''$message''
   \<and> CHR ''$'' \<notin> set (Title \<lparr>Title = ''Disk'', Message = ''90% full''\<rparr>)
   \<and> render \<lparr>Title = ''Disk'', Message = ''90% full''\<rparr> (''$title: '' @ ''$message'' @ '' ($title)'')
       = ''Disk: 90% full (Disk)''"
  using render_replaces_every_occurrence
    [of "''disk alert''" "\<lparr>Title = ''Disk'', Message = ''90% full''\<rparr>" "''$title: ''" "'' ($title)''"]
  by (simp add: render_def)

text \<open>
  Claim C4, as stated, fails. A \<^verbatim>\<open>$message\<close> that the title brings in is substituted by
  the second replacement: the body \<^verbatim>\<open>$title\<close> with the title \<^verbatim>\<open>$message\<close> and the message
  \<^verbatim>\<open>X\<close> renders to \<^verbatim>\<open>X\<close>. And a rendered body may contain a placeholder and still render
  to itself: with the title \<^verbatim>\<open>$title\<close>, the body \<^verbatim>\<open>$title\<close> does.
\<close>

theorem render_substitutes_into_title_counterexample:
  "render \<lparr>Title = ''$message'', Message = ''X''\<rparr> ''$title'' = ''X''
   \<and> Contains (render \<lparr>Title = ''$title'', Message = ''X''\<rparr> ''$title'') ''$title''
   \<and> render \<lparr>Title = ''$title'', Message = ''X''\<rparr>
         (render \<lparr>Title = ''$title'', Message = ''X''\<rparr> ''$title'')
       = render \<lparr>Title = ''$title'', Message = ''X''\<rparr> ''$title''"
  by (simp add: render_def)

text \<open>
  Claim C4, amended. Rendering is two passes, each over the whole string and each from
  left to right without looking at what it has put in: the title put in for \<^verbatim>\<open>$title\<close> is
  not searched for \<^verbatim>\<open>$title\<close> again, but the \<^verbatim>\<open>$message\<close> pass runs over it; the message put
  in for \<^verbatim>\<open>$message\<close> is never searched. Rendering a rendered body once more returns it
  unchanged if neither placeholder occurs in it.
\<close>

theorem render_two_passes:
  "render msg (''$title'' @ post)
     = Replace ''$message'' (Message msg) (Title msg @ Replace ''$title'' (Title msg) post)
   \<and> render msg (pre @ ''$message'' @ post) = render msg pre @ Message msg @ render msg post
   \<and> (\<not> Contains (render msg body) ''$title'' \<and> \<not> Contains (render msg body) ''$message''
        \<longrightarrow> render msg (render msg body) = render msg body)"
proof -
  have "render msg ([] @ ''$title'' @ post)
     = Replace ''$message'' (Message msg) (Title msg @ Replace ''$title'' (Title msg) post)"
    unfolding render_at_title by simp
  then show ?thesis using render_at_message render_absent by simp
qed

theorem render_two_passes_witness:
  "render \<lparr>Title = ''$message!'', Message = ''$title''\<rparr> (''$title'' @ '' $title'')
     = ''$title! $title!''
   \<and> \<not> Contains (render \<lparr>Title = ''Disk'', Message = ''90% full''\<rparr> ''$title: $message'') ''$title''
   \<and> \<not> Contains (render \<lparr>Title = ''Disk'', Message = ''90% full''\<rparr> ''$title: $message'') ''$message''
   \<and> render \<lparr>Title = ''Disk'', Message = ''90% full''\<rparr>
         (render \<lparr>Title = ''Disk'', Message = ''90% full''\<rparr> ''$title: $message'')
       = ''Disk: 90% full''"
  using render_two_passes
    [of "\<lparr>Title = ''Disk'', Message = ''90% full''\<rparr>" "[]" "[]" "''$title: $message''"]
    render_two_passes
    [of "\<lparr>Title = ''$message!'', Message = ''$title''\<rparr>" "'' $title''" "[]" "[]"]
  by (simp add: render_def)

text \<open>
  Claim C5, as stated, fails for the headers. The default is given to a \<^verbatim>\<open>nil\<close> header
  map only (line 146): Target \<open>3\<close> has a header map with no entry, and its request is sent
  with no header at all.
\<close>

theorem SendMessage_empty_header_counterexample:
  "map_option (map_option dom \<circ> Header) (store_example 3) = Some (Some {})
   \<and> map target (fst (snd (SendMessage env_example msg_example [3] store_example 0))) = [3]
   \<and> map result (fst (snd (SendMessage env_example msg_example [3] store_example 0))) = [Sent]
   \<and> map (r_header \<circ> request)
         (fst (snd (SendMessage env_example msg_example [3] store_example 0))) = [{#}]"
  by (simp add: example_defs Header_fields_empty)

text \<open>
  Claim C5, amended. For every Target dispatched, the request is built from the Target
  as it was passed in, with the defaults of lines 143-153: an empty method is \<^verbatim>\<open>POST\<close>; a
  header map that is not set (nil) gives exactly the header
  \<^verbatim>\<open>{"Content-Type": "application/json"}\<close>, while a header map that is set gives its own
  entries, each under the canonical form of its key, and so no header when it has no
  entry; an empty body is the template \<^verbatim>\<open>{"msg":"$title\n$message"}\<close>; the URL is the
  Target's.
\<close>

theorem SendMessage_effective_request:
  assumes "SendMessage env msg hooks h w = (r, atts, h', w')" and "i < length atts"
  shows \<open>\<exists>webhook. h (hooks ! i) = Some webhook \<and> target (atts ! i) = hooks ! i
     \<and> request (atts ! i) =
         \<lparr>r_method = (if Method webhook = [] then ''POST'' else Method webhook),
          r_url = Url webhook,
          r_header = (case Header webhook of
                        None \<Rightarrow> {#(''Content-Type'', ''application/json'')#}
                      | Some m \<Rightarrow> image_mset (\<lambda>(k, v). (CanonicalMIMEHeaderKey k, v))
                                   (mset_set (Map.graph m))),
          r_body = render msg (if Body webhook = [] then ''{"msg":"$title\<newline>$message"}''
                               else Body webhook)\<rparr>
     \<and> (Header webhook = Some Map.empty \<longrightarrow> r_header (request (atts ! i)) = {#})\<close>
proof -
  from SendMessage_requests[OF assms] obtain webhook where
    wh: "h (hooks ! i) = Some webhook"
    and rq: "request (atts ! i) = build_request msg (apply_defaults webhook)" by blast
  have tg: "target (atts ! i) = hooks ! i"
    using SendMessage_targets[OF assms(1)] assms(2)
    by (metis length_map nth_map nth_take)
  have bq: \<open>build_request msg (apply_defaults webhook) =
         \<lparr>r_method = (if Method webhook = [] then ''POST'' else Method webhook),
          r_url = Url webhook,
          r_header = (case Header webhook of
                        None \<Rightarrow> {#(''Content-Type'', ''application/json'')#}
                      | Some m \<Rightarrow> image_mset (\<lambda>(k, v). (CanonicalMIMEHeaderKey k, v))
                                   (mset_set (Map.graph m))),
          r_body = render msg (if Body webhook = [] then ''{"msg":"$title\<newline>$message"}''
                               else Body webhook)\<rparr>\<close>
  proof (cases "Header webhook")
    case None
    then show ?thesis
      by (simp add: build_request_def apply_defaults_def Header_fields_default
          default_body_def)
  next
    case (Some m)
    then show ?thesis
      by (simp add: build_request_def apply_defaults_def default_body_def Header_fields_def)
  qed
  have "Header webhook = Some Map.empty \<longrightarrow> r_header (request (atts ! i)) = {#}"
    using rq bq by simp
  with wh tg rq bq show ?thesis by simp
qed

theorem SendMessage_effective_request_witness:
  \<open>(case SendMessage env_example msg_example [1, 2, 3] store_example 0 of
      (r, atts, h', w') \<Rightarrow>
        length atts = 2 \<and> store_example ([1, 2, 3] ! 0) = Some hook_plain
        \<and> Method hook_plain = [] \<and> Header hook_plain = None \<and> Body hook_plain = []
        \<and> request (atts ! 0) =
            \<lparr>r_method = ''POST'', r_url = ''http://h/hook'',
             r_header = {#(''Content-Type'', ''application/json'')#},
             r_body = ''{"msg":"Disk\<newline>90% full"}''\<rparr>
        \<and> store_example ([1, 2, 3] ! 1) = Some hook_down
        \<and> r_header (request (atts ! 1)) = {#(''X-Token'', ''s3'')#})
   \<and> Header hook_bare = Some Map.empty
   \<and> (case SendMessage env_example msg_example [3] store_example 0 of
        (r, atts, h', w') \<Rightarrow>
          length atts = 1 \<and> store_example ([3] ! 0) = Some hook_bare
          \<and> r_header (request (atts ! 0)) = {#})\<close>
proof -
  obtain r atts h' w' where
    run: "SendMessage env_example msg_example [1, 2, 3] store_example 0 = (r, atts, h', w')"
    by (metis prod_cases4)
  obtain r3 atts3 h3 w3 where
    run3: "SendMessage env_example msg_example [3] store_example 0 = (r3, atts3, h3, w3)"
    by (metis prod_cases4)
  have len: "length atts = 2" using run by (auto simp add: example_defs)
  have len3: "length atts3 = 1" using run3 by (auto simp add: example_defs)
  have st0: "store_example ([1, 2, 3] ! 0) = Some hook_plain"
    and st1: "store_example ([1, 2, 3] ! 1) = Some hook_down"
    and st3: "store_example ([3] ! 0) = Some hook_bare"
    by (simp_all add: store_example_def)
  have i0: "0 < length atts" and i1: "1 < length atts" using len by simp_all
  have j0: "0 < length atts3" using len3 by simp
  from SendMessage_effective_request[OF run i0] st0
  have \<open>request (atts ! 0) =
         \<lparr>r_method = (if Method hook_plain = [] then ''POST'' else Method hook_plain),
          r_url = Url hook_plain,
          r_header = (case Header hook_plain of
                        None \<Rightarrow> {#(''Content-Type'', ''application/json'')#}
                      | Some m \<Rightarrow> image_mset (\<lambda>(k, v). (CanonicalMIMEHeaderKey k, v))
                                   (mset_set (Map.graph m))),
          r_body = render msg_example
                     (if Body hook_plain = [] then ''{"msg":"$title\<newline>$message"}''
                      else Body hook_plain)\<rparr>\<close>
    by auto
  then have q0: \<open>request (atts ! 0) =
            \<lparr>r_method = ''POST'', r_url = ''http://h/hook'',
             r_header = {#(''Content-Type'', ''application/json'')#},
             r_body = ''{"msg":"Disk\<newline>90% full"}''\<rparr>\<close>
    by (simp add: hook_plain_def msg_example_def render_def)
  from SendMessage_effective_request[OF run i1] st1
  have "r_header (request (atts ! 1)) =
          (case Header hook_down of
             None \<Rightarrow> {#(''Content-Type'', ''application/json'')#}
           | Some m \<Rightarrow> image_mset (\<lambda>(k, v). (CanonicalMIMEHeaderKey k, v))
                        (mset_set (Map.graph m)))"
    by auto
  then have q1: "r_header (request (atts ! 1)) = {#(''X-Token'', ''s3'')#}"
    using Header_fields_single[of "''x-token''" "''s3''"]
    by (simp add: hook_down_def Header_fields_def canonical_x_token)
  have hb: "Header hook_bare = Some Map.empty" by (simp add: hook_bare_def)
  from SendMessage_effective_request[OF run3 j0] st3 hb
  have q3: "r_header (request (atts3 ! 0)) = {#}" by auto
  show ?thesis using run run3 len len3 st0 st1 st3 q0 q1 q3 hb
    by (simp add: hook_plain_def)
qed

text \<open>
  Claim C6. \<^verbatim>\<open>Enable\<close> returns an error, and starts nothing, whenever the token is
  empty, the server address is empty, or the dial to
  \<^verbatim>\<open>{serverAddress}/stream?token={token}\<close> fails. With an empty token or address nothing
  at all has happened; otherwise that URL has been dialled exactly once (no retry).
\<close>

theorem Enable_fails_without_session:
  assumes "config p = Some c"
    and "ClientToken c = [] \<or> HostServer c = []
         \<or> \<not> fst (Dial env (HostServer c @ ''/stream?token='' @ ClientToken c) (world rt))"
  shows "\<exists>e rt'. Enable env p rt = (Returned (Some e), rt')
       \<and> sessions rt' = sessions rt
       \<and> (if ClientToken c = [] \<or> HostServer c = [] then rt' = rt
          else dialled rt' = dialled rt @ [HostServer c @ ''/stream?token='' @ ClientToken c])"
  using assms
  by (auto simp: Enable_def TestSocket_def Let_def
      split: option.splits if_splits prod.splits)

theorem Enable_fails_without_session_witness:
  "(\<exists>e. Enable env_example \<lparr>config = Some \<lparr>ClientToken = [], HostServer = ''ws://localhost'',
                                            WebHooks = []\<rparr>\<rparr> runtime_example
        = (Returned (Some e), runtime_example))
   \<and> (\<exists>e. Enable env_example \<lparr>config = Some \<lparr>ClientToken = ''tok'', HostServer = [],
                                            WebHooks = []\<rparr>\<rparr> runtime_example
        = (Returned (Some e), runtime_example))
   \<and> \<not> fst (Dial env_example (''ws://elsewhere'' @ ''/stream?token='' @ ''tok'') (world runtime_example))
   \<and> (\<exists>e. Enable env_example \<lparr>config = Some \<lparr>ClientToken = ''tok'', HostServer = ''ws://elsewhere'',
                                            WebHooks = []\<rparr>\<rparr> runtime_example
        = (Returned (Some e),
           runtime_example\<lparr>dialled := [''ws://elsewhere/stream?token=tok'']\<rparr>))"
proof -
  let ?c1 = "\<lparr>ClientToken = [], HostServer = ''ws://localhost'', WebHooks = []\<rparr>"
  let ?c2 = "\<lparr>ClientToken = ''tok'', HostServer = [], WebHooks = []\<rparr>"
  let ?c3 = "\<lparr>ClientToken = ''tok'', HostServer = ''ws://elsewhere'', WebHooks = []\<rparr>"
  have d: "\<not> fst (Dial env_example (''ws://elsewhere'' @ ''/stream?token='' @ ''tok'') (world runtime_example))"
    by (simp add: env_example_def)
  from Enable_fails_without_session[of "\<lparr>config = Some ?c1\<rparr>" ?c1 env_example runtime_example]
  have 1: "\<exists>e. Enable env_example \<lparr>config = Some ?c1\<rparr> runtime_example
        = (Returned (Some e), runtime_example)" by simp
  from Enable_fails_without_session[of "\<lparr>config = Some ?c2\<rparr>" ?c2 env_example runtime_example]
  have 2: "\<exists>e. Enable env_example \<lparr>config = Some ?c2\<rparr> runtime_example
        = (Returned (Some e), runtime_example)" by simp
  from Enable_fails_without_session[of "\<lparr>config = Some ?c3\<rparr>" ?c3 env_example runtime_example] d
  obtain e rt' where 3: "Enable env_example \<lparr>config = Some ?c3\<rparr> runtime_example
        = (Returned (Some e), rt')" by auto
  then have "rt' = runtime_example\<lparr>dialled := [''ws://elsewhere/stream?token=tok'']\<rparr>"
    by (simp add: Enable_def TestSocket_def env_example_def runtime_example_def)
  with 1 2 3 d show ?thesis by blast
qed

text \<open>
  Claim C7 fails on the code as it is written. \<^verbatim>\<open>Disable\<close> (documented at line 68 as
  disabling the plugin) only logs: after a successful \<^verbatim>\<open>Enable\<close> and a \<^verbatim>\<open>Disable\<close>, the
  started Session is still there; and the next \<^verbatim>\<open>Enable\<close> (the help text of line 136
  asks for one after every change of the configuration) starts a second Session next to
  the first.
\<close>

theorem Disable_leaves_session_running:
  "fst (Enable env_example plugin_example runtime_example) = Returned None
   \<and> fst (Disable plugin_example (snd (Enable env_example plugin_example runtime_example)))
       = Returned None
   \<and> sessions (snd (snd (Disable plugin_example
                               (snd (Enable env_example plugin_example runtime_example)))))
       = [''ws://localhost/stream?token=CrMo3UaAQG1H37G'']
   \<and> fst (Enable env_example plugin_example
              (snd (snd (Disable plugin_example
                           (snd (Enable env_example plugin_example runtime_example))))))
       = Returned None
   \<and> sessions (snd (Enable env_example plugin_example
                          (snd (snd (Disable plugin_example
                                       (snd (Enable env_example plugin_example
                                               runtime_example)))))))
       = [''ws://localhost/stream?token=CrMo3UaAQG1H37G'',
          ''ws://localhost/stream?token=CrMo3UaAQG1H37G'']"
  by (simp add: Enable_def Disable_def TestSocket_def env_example_def plugin_example_def
      runtime_example_def Let_def)

text \<open>
  Claim C8 fails on the code as it is written: the loop decodes every frame into the
  one variable \<^verbatim>\<open>msg\<close> declared before it (line 190), and \<^verbatim>\<open>json.Unmarshal\<close> leaves a
  field untouched whose member the frame does not have. After the frame
  \<^verbatim>\<open>{"title":"A","message":"B"}\<close>, the frame \<^verbatim>\<open>{"title":"C"}\<close> is handed to the Dispatcher
  as title \<^verbatim>\<open>C\<close>, message \<^verbatim>\<open>B\<close>.
\<close>

theorem read_loop_inherits_missing_field:
  \<open>map event
     (fst (snd (read_loop env_example [1]
                  [Frame (Object (Some ''A'') (Some ''B'')), Frame (Object (Some ''C'') None)]
                  empty_Message store_example 0)))
   = [\<lparr>Title = ''A'', Message = ''B''\<rparr>, \<lparr>Title = ''C'', Message = ''B''\<rparr>]
   \<and> map (map (r_body \<circ> request) \<circ> attempts)
       (fst (snd (read_loop env_example [1]
                    [Frame (Object (Some ''A'') (Some ''B'')), Frame (Object (Some ''C'') None)]
                    empty_Message store_example 0)))
     = [[''{"msg":"A\<newline>B"}''], [''{"msg":"C\<newline>B"}'']]\<close>
  by (simp add: example_defs empty_Message_def)



text \<open>
  Claim C10, as stated, fails for the headers, as C5 does: after \<^verbatim>\<open>SendMessage\<close> has run
  on Target \<open>3\<close>, whose header map is set and has no entry, that map still has no entry
  (while the method, which was empty, now is \<^verbatim>\<open>POST\<close>).
\<close>

theorem SendMessage_keeps_empty_header_counterexample:
  "map_option (map_option dom \<circ> Header) (store_example 3) = Some (Some {})
   \<and> map target (fst (snd (SendMessage env_example msg_example [3] store_example 0))) = [3]
   \<and> map_option Method
         (fst (snd (snd (SendMessage env_example msg_example [3] store_example 0))) 3)
       = Some ''POST''
   \<and> map_option (map_option dom \<circ> Header)
         (fst (snd (snd (SendMessage env_example msg_example [3] store_example 0))) 3)
       = Some (Some {})"
  by (simp add: example_defs)

text \<open>
  Claim C10, amended. \<^verbatim>\<open>SendMessage\<close> writes the defaults into the records behind the
  pointers it is given: a record that no attempt went to is as it was; a record that
  an attempt went to has the default method if its method was empty, the default
  header map if its header map was nil (a map that is set stays as it is), the default
  body if its body was empty, and is otherwise as it was. So the defaults appear at
  dispatch time, and a record with an empty method, a nil header map or an empty body
  is another record after the call.
\<close>

theorem SendMessage_writes_defaults:
  assumes "SendMessage env msg hooks h w = (r, atts, h', w')"
  shows \<open>(\<forall>p. p \<notin> target ` set atts \<longrightarrow> h' p = h p)
     \<and> (\<forall>p webhook. p \<in> target ` set atts \<and> h p = Some webhook \<longrightarrow>
           h' p = Some (webhook
             \<lparr>Method := (if Method webhook = [] then ''POST'' else Method webhook),
              Header := Some (case Header webhook of
                                None \<Rightarrow> [''Content-Type'' \<mapsto> ''application/json'']
                              | Some m \<Rightarrow> m),
              Body := (if Body webhook = [] then ''{"msg":"$title\<newline>$message"}''
                       else Body webhook)\<rparr>)
           \<and> (Method webhook = [] \<or> Header webhook = None \<or> Body webhook = []
                \<longrightarrow> h' p \<noteq> h p))\<close>
proof -
  have eq: \<open>apply_defaults webhook = webhook
             \<lparr>Method := (if Method webhook = [] then ''POST'' else Method webhook),
              Header := Some (case Header webhook of
                                None \<Rightarrow> [''Content-Type'' \<mapsto> ''application/json'']
                              | Some m \<Rightarrow> m),
              Body := (if Body webhook = [] then ''{"msg":"$title\<newline>$message"}''
                       else Body webhook)\<rparr>\<close> for webhook
    by (cases "Header webhook")
       (simp_all add: apply_defaults_def default_header_def default_body_def)
  have neq: "apply_defaults webhook \<noteq> webhook"
    if "Method webhook = [] \<or> Header webhook = None \<or> Body webhook = []" for webhook
  proof
    assume a: "apply_defaults webhook = webhook"
    have "Method (apply_defaults webhook) \<noteq> []" "Header (apply_defaults webhook) \<noteq> None"
      "Body (apply_defaults webhook) \<noteq> []"
      by (simp_all add: apply_defaults_def default_body_def)
    with a that show False by simp
  qed
  have st: "h' p = (if p \<in> target ` set atts then map_option apply_defaults (h p) else h p)"
    for p by (rule SendMessage_store[OF assms])
  show ?thesis
  proof (intro conjI allI impI)
    fix p assume "p \<notin> target ` set atts"
    then show "h' p = h p" using st[of p] by simp
  next
    fix p webhook assume a: "p \<in> target ` set atts \<and> h p = Some webhook"
    then have "h' p = Some (apply_defaults webhook)" using st[of p] by simp
    then show \<open>h' p = Some (webhook
             \<lparr>Method := (if Method webhook = [] then ''POST'' else Method webhook),
              Header := Some (case Header webhook of
                                None \<Rightarrow> [''Content-Type'' \<mapsto> ''application/json'']
                              | Some m \<Rightarrow> m),
              Body := (if Body webhook = [] then ''{"msg":"$title\<newline>$message"}''
                       else Body webhook)\<rparr>)\<close>
      using eq[of webhook] by simp
  next
    fix p webhook assume a: "p \<in> target ` set atts \<and> h p = Some webhook"
      and e: "Method webhook = [] \<or> Header webhook = None \<or> Body webhook = []"
    from a have "h' p = Some (apply_defaults webhook)" using st[of p] by simp
    with a neq[OF e] show "h' p \<noteq> h p" by simp
  qed
qed

theorem SendMessage_writes_defaults_witness:
  \<open>(case SendMessage env_example msg_example [2, 1] store_example 0 of
      (r, atts, h', w') \<Rightarrow> 1 \<notin> target ` set atts \<and> h' 1 = store_example 1)
   \<and> (case SendMessage env_example msg_example [1, 2] store_example 0 of
      (r, atts, h', w') \<Rightarrow>
        1 \<in> target ` set atts \<and> store_example 1 = Some hook_plain
        \<and> Method hook_plain = []
        \<and> h' 1 = Some \<lparr>Url = ''http://h/hook'', Method = ''POST'',
                         Body = ''{"msg":"$title\<newline>$message"}'',
                         Header = Some [''Content-Type'' \<mapsto> ''application/json'']\<rparr>
        \<and> h' 1 \<noteq> store_example 1)\<close>
proof -
  obtain r1 atts1 h1 w1 where
    run1: "SendMessage env_example msg_example [2, 1] store_example 0 = (r1, atts1, h1, w1)"
    by (metis prod_cases4)
  obtain r2 atts2 h2 w2 where
    run2: "SendMessage env_example msg_example [1, 2] store_example 0 = (r2, atts2, h2, w2)"
    by (metis prod_cases4)
  have a1: "1 \<notin> target ` set atts1" using run1 by (auto simp add: example_defs)
  have a2: "1 \<in> target ` set atts2" using run2 by (auto simp add: example_defs)
  have s: "store_example 1 = Some hook_plain" by (simp add: store_example_def)
  have m: "Method hook_plain = []" by (simp add: hook_plain_def)
  note t1 = SendMessage_writes_defaults[OF run1]
  note t2 = SendMessage_writes_defaults[OF run2]
  from t1 a1 have c1: "h1 1 = store_example 1" by blast
  from t2 a2 s m have c2: \<open>h2 1 = Some (hook_plain
             \<lparr>Method := (if Method hook_plain = [] then ''POST'' else Method hook_plain),
              Header := Some (case Header hook_plain of
                                None \<Rightarrow> [''Content-Type'' \<mapsto> ''application/json'']
                              | Some m \<Rightarrow> m),
              Body := (if Body hook_plain = [] then ''{"msg":"$title\<newline>$message"}''
                       else Body hook_plain)\<rparr>)\<close>
    and c3: "h2 1 \<noteq> store_example 1" by blast+
  from c2 have \<open>h2 1 = Some \<lparr>Url = ''http://h/hook'', Method = ''POST'',
                         Body = ''{"msg":"$title\<newline>$message"}'',
                         Header = Some [''Content-Type'' \<mapsto> ''application/json'']\<rparr>\<close>
    by (simp add: hook_plain_def)
  with run1 run2 a1 a2 s m c1 c3 show ?thesis by simp
qed

end
